theory Spec2Isabelle
  imports Main "HOL-Library.Sublist"
begin

section \<open>Python strings\<close>

text \<open>
  A Python \<open>str\<close> is a sequence of Unicode code points, so it is modelled as a list of
  natural numbers. \<open>str\<close> turns an Isabelle literal into the code points of its characters.
\<close>

type_synonym pystr = "nat list"

definition str :: "string \<Rightarrow> pystr" where
  "str s = map of_char s"

text \<open>
  \<open>str.strip()\<close> with no argument removes the characters for which \<open>str.isspace\<close> holds:
  U+0009 to U+000D, U+001C to U+0020, U+0085, U+00A0, U+1680, U+2000 to U+200A, U+2028,
  U+2029, U+202F, U+205F and U+3000.
\<close>

definition py_isspace :: "nat \<Rightarrow> bool" where
  "py_isspace c \<longleftrightarrow>
     (0x09 \<le> c \<and> c \<le> 0x0D) \<or> (0x1C \<le> c \<and> c \<le> 0x20) \<or> c = 0x85 \<or> c = 0xA0 \<or>
     c = 0x1680 \<or> (0x2000 \<le> c \<and> c \<le> 0x200A) \<or> c = 0x2028 \<or> c = 0x2029 \<or>
     c = 0x202F \<or> c = 0x205F \<or> c = 0x3000"

definition py_strip :: "pystr \<Rightarrow> pystr" where
  "py_strip s = rev (dropWhile py_isspace (rev (dropWhile py_isspace s)))"

text \<open>
  \<open>s.split(sep)\<close> for a separator of one character: one piece more than there are
  separators, the empty string giving one empty piece.
\<close>

fun py_split :: "nat \<Rightarrow> pystr \<Rightarrow> pystr list" where
  "py_split sep [] = [[]]"
| "py_split sep (c # cs) =
     (if c = sep then [] # py_split sep cs
      else (case py_split sep cs of
              [] \<Rightarrow> [[c]]
            | t # ts \<Rightarrow> (c # t) # ts))"

fun py_join :: "pystr \<Rightarrow> pystr list \<Rightarrow> pystr" where
  "py_join sep [] = []"
| "py_join sep [x] = x"
| "py_join sep (x # y # ys) = x @ sep @ py_join sep (y # ys)"

definition py_startswith :: "pystr \<Rightarrow> pystr \<Rightarrow> bool" where
  "py_startswith s p \<longleftrightarrow> take (length p) s = p"

definition comma :: nat where
  "comma = 0x2C"

section \<open>The option model (transcribe\_options.py)\<close>

record TranscribeOptions =
  identify_speakers :: bool
  format :: bool
  insert_section_headings :: bool
  research_paras :: bool
  add_summary_bullets :: bool
  add_description :: bool
  insert_frame_captures :: bool

text \<open>\<open>cls()\<close>: every field takes its default, \<open>False\<close>.\<close>

definition cls :: TranscribeOptions where
  "cls = \<lparr> identify_speakers = False, format = False, insert_section_headings = False,
           research_paras = False, add_summary_bullets = False, add_description = False,
           insert_frame_captures = False \<rparr>"

definition basic :: TranscribeOptions where
  "basic = cls"

definition formatted :: TranscribeOptions where
  "formatted = cls \<lparr> format := True, identify_speakers := True \<rparr>"

definition annotated :: TranscribeOptions where
  "annotated = cls \<lparr> format := True, identify_speakers := True,
                     insert_section_headings := True, research_paras := False,
                     add_summary_bullets := True, add_description := True,
                     insert_frame_captures := True \<rparr>"

definition deep :: TranscribeOptions where
  "deep = cls \<lparr> format := True, identify_speakers := True,
                insert_section_headings := True, research_paras := True,
                add_summary_bullets := True, add_description := True,
                insert_frame_captures := True \<rparr>"

definition merge_with :: "TranscribeOptions \<Rightarrow> TranscribeOptions \<Rightarrow> TranscribeOptions" where
  "merge_with self other =
     \<lparr> identify_speakers = identify_speakers self \<or> identify_speakers other,
       format = format self \<or> format other,
       insert_section_headings = insert_section_headings self \<or> insert_section_headings other,
       research_paras = research_paras self \<or> research_paras other,
       add_summary_bullets = add_summary_bullets self \<or> add_summary_bullets other,
       add_description = add_description self \<or> add_description other,
       insert_frame_captures = insert_frame_captures self \<or> insert_frame_captures other \<rparr>"

subsection \<open>Attributes of an instance\<close>

text \<open>
  \<open>from_with_flags\<close> tests a token with \<open>hasattr\<close> and sets it with \<open>setattr\<close>, so what it
  accepts is every attribute name of the instance, not only the seven fields. The names
  come from three places: the dataclass fields, in the order of their declaration (the keys
  of \<open>__dataclass_fields__\<close>); the other names the class body and the source itself use
  (the four presets, \<open>from_with_flags\<close>, \<open>merge_with\<close>, and \<open>__dataclass_fields__\<close>, which
  line 96 reads); and the names every instance inherits from \<open>object\<close> and from the dataclass
  decorator, such as \<open>__class__\<close> or \<open>__doc__\<close>.
\<close>

definition dataclass_fields :: "pystr list" where
  "dataclass_fields =
     [str ''identify_speakers'', str ''format'', str ''insert_section_headings'',
      str ''research_paras'', str ''add_summary_bullets'', str ''add_description'',
      str ''insert_frame_captures'']"

definition class_attributes :: "pystr list" where
  "class_attributes =
     [str ''basic'', str ''formatted'', str ''annotated'', str ''deep'',
      str ''from_with_flags'', str ''merge_with'', str ''__dataclass_fields__'']"

datatype error = ValueError pystr | TypeError pystr | AttributeError pystr

text \<open>
  The inherited names are not in the source, so they are a parameter: for each name,
  \<open>None\<close> when the instance inherits no such attribute, and otherwise what
  \<open>setattr(instance, name, True)\<close> does with it.
\<close>

datatype inherited = Writable | Unwritable error

type_synonym runtime = "pystr \<Rightarrow> inherited option"

text \<open>
  The instance while the loop runs: its seven fields, and the other names that \<open>setattr\<close>
  has stored in the instance dictionary.
\<close>

record py_instance =
  flags :: TranscribeOptions
  shadowed :: "pystr list"

definition hasattr :: "runtime \<Rightarrow> py_instance \<Rightarrow> pystr \<Rightarrow> bool" where
  "hasattr rt options name \<longleftrightarrow>
     name \<in> set dataclass_fields \<or> name \<in> set class_attributes \<or>
     name \<in> set (shadowed options) \<or> rt name \<noteq> None"

definition set_field :: "pystr \<Rightarrow> TranscribeOptions \<Rightarrow> TranscribeOptions" where
  "set_field name opts =
     (if name = str ''identify_speakers'' then opts \<lparr> identify_speakers := True \<rparr>
      else if name = str ''format'' then opts \<lparr> format := True \<rparr>
      else if name = str ''insert_section_headings'' then opts \<lparr> insert_section_headings := True \<rparr>
      else if name = str ''research_paras'' then opts \<lparr> research_paras := True \<rparr>
      else if name = str ''add_summary_bullets'' then opts \<lparr> add_summary_bullets := True \<rparr>
      else if name = str ''add_description'' then opts \<lparr> add_description := True \<rparr>
      else if name = str ''insert_frame_captures'' then opts \<lparr> insert_frame_captures := True \<rparr>
      else opts)"

text \<open>\<open>setattr(options, name, True)\<close> for a name that \<open>hasattr\<close> has accepted.\<close>

definition setattr_True :: "runtime \<Rightarrow> py_instance \<Rightarrow> pystr \<Rightarrow> error + py_instance" where
  "setattr_True rt options name =
     (if name \<in> set dataclass_fields
        then Inr (options \<lparr> flags := set_field name (flags options) \<rparr>)
      else if name \<in> set class_attributes
        then Inr (options \<lparr> shadowed := name # shadowed options \<rparr>)
      else (case rt name of
              Some (Unwritable e) \<Rightarrow> Inl e
            | _ \<Rightarrow> Inr (options \<lparr> shadowed := name # shadowed options \<rparr>)))"

text \<open>
  The error of line 98. Line 96 iterates over \<open>options.__dataclass_fields__\<close>, which is no
  longer the dictionary of fields once an earlier token has stored \<open>True\<close> under that name.
\<close>

definition unknown_option :: "py_instance \<Rightarrow> pystr \<Rightarrow> error" where
  "unknown_option options flag_name =
     (if str ''__dataclass_fields__'' \<in> set (shadowed options)
        then TypeError (str [CHR 0x27] @ str ''bool'' @ str [CHR 0x27] @ str '' object is not iterable'')
      else
        (let valid_options =
               filter (\<lambda>field. \<not> py_startswith field (str ''_'')) dataclass_fields
         in ValueError (str ''Unknown option '' @ str [CHR 0x27] @ flag_name @ str [CHR 0x27] @
                        str ''. Valid options: '' @ py_join (str '', '') valid_options)))"

text \<open>The loop of lines 89 to 100, over the stripped tokens.\<close>

fun set_flags :: "runtime \<Rightarrow> pystr list \<Rightarrow> py_instance \<Rightarrow> error + py_instance" where
  "set_flags rt [] options = Inr options"
| "set_flags rt (flag_name # rest) options =
     (if flag_name = [] then set_flags rt rest options
      else if hasattr rt options flag_name then
        (case setattr_True rt options flag_name of
           Inl e \<Rightarrow> Inl e
         | Inr options' \<Rightarrow> set_flags rt rest options')
      else Inl (unknown_option options flag_name))"

definition from_with_flags :: "runtime \<Rightarrow> pystr \<Rightarrow> error + TranscribeOptions" where
  "from_with_flags rt with_flags =
     (let options = \<lparr> flags = cls, shadowed = [] \<rparr> in
      if py_strip with_flags = [] then Inr (flags options)
      else
        (let flag_names = map py_strip (py_split comma with_flags) in
         case set_flags rt flag_names options of
           Inl e \<Rightarrow> Inl e
         | Inr options' \<Rightarrow> Inr (flags options')))"

text \<open>
  \<open>from_with_flags\<close> above gives the configuration of the instance it returns, its seven
  fields. The instance itself also carries what line 93 stored in its dictionary under
  other names; this is the same code without the projection to the fields.
\<close>

definition from_with_flags_instance :: "runtime \<Rightarrow> pystr \<Rightarrow> error + py_instance" where
  "from_with_flags_instance rt with_flags =
     (let options = \<lparr> flags = cls, shadowed = [] \<rparr> in
      if py_strip with_flags = [] then Inr options
      else
        (let flag_names = map py_strip (py_split comma with_flags) in
         set_flags rt flag_names options))"

definition quoted :: "pystr \<Rightarrow> pystr" where
  "quoted s = str [CHR 0x27] @ s @ str [CHR 0x27]"

text \<open>
  The call \<open>a.merge_with(b)\<close> on instances. Python looks \<open>merge_with\<close> up in the dictionary
  of \<open>a\<close> before the class (a function is not a data descriptor), so on an instance where
  \<open>setattr\<close> has stored \<open>True\<close> under that name the call applies \<open>True\<close> and raises.
  Otherwise the method body runs; it reads the seven fields of both instances and
  constructs a new instance. \<open>a == b\<close> is the \<open>__eq__\<close> that the dataclass decorator
  generates, found on the class: it compares the fields.
\<close>

definition call_merge_with :: "py_instance \<Rightarrow> py_instance \<Rightarrow> error + py_instance" where
  "call_merge_with a b =
     (if str ''merge_with'' \<in> set (shadowed a)
        then Inl (TypeError (quoted (str ''bool'') @ str '' object is not callable''))
      else Inr \<lparr> flags = merge_with (flags a) (flags b), shadowed = [] \<rparr>)"

definition py_eq :: "py_instance \<Rightarrow> py_instance \<Rightarrow> bool" where
  "py_eq a b \<longleftrightarrow> flags a = flags b"

text \<open>
  The inherited attributes of CPython 3.11, as one runtime to evaluate the parser on.
\<close>

definition cpython :: runtime where
  "cpython = map_of
     [(str ''__class__'',
         Unwritable (TypeError (str ''__class__ must be set to a class, not '' @
                                quoted (str ''bool'') @ str '' object''))),
      (str ''__dict__'',
         Unwritable (TypeError (str ''__dict__ must be set to a dictionary, not a '' @
                                quoted (str ''bool'')))),
      (str ''__weakref__'',
         Unwritable (AttributeError (str ''attribute '' @ quoted (str ''__weakref__'') @
                                     str '' of '' @ quoted (str ''TranscribeOptions'') @
                                     str '' objects is not writable''))),
      (str ''__annotations__'', Writable), (str ''__dataclass_params__'', Writable),
      (str ''__delattr__'', Writable), (str ''__dir__'', Writable), (str ''__doc__'', Writable),
      (str ''__eq__'', Writable), (str ''__format__'', Writable), (str ''__ge__'', Writable),
      (str ''__getattribute__'', Writable), (str ''__getstate__'', Writable),
      (str ''__gt__'', Writable), (str ''__hash__'', Writable), (str ''__init__'', Writable),
      (str ''__init_subclass__'', Writable), (str ''__le__'', Writable), (str ''__lt__'', Writable),
      (str ''__match_args__'', Writable), (str ''__module__'', Writable), (str ''__ne__'', Writable),
      (str ''__new__'', Writable), (str ''__reduce__'', Writable), (str ''__reduce_ex__'', Writable),
      (str ''__repr__'', Writable), (str ''__setattr__'', Writable), (str ''__sizeof__'', Writable),
      (str ''__str__'', Writable), (str ''__subclasshook__'', Writable)]"

section \<open>The pipeline orchestrator (cli\_commands.py)\<close>

text \<open>
  The ten steps are kash actions that \<open>transcribe_with_options\<close> imports (lines 24 to 33);
  they are not code of this repository, so they are parameters of the model. An action
  takes an item and returns an item or raises, and it may have effects of its own (network,
  files): it is a function of the item and of the state of the world, to an outcome
  (\<open>Inl\<close> the exception raised) and the world afterwards. The six actions that share
  their name with a flag of \<open>TranscribeOptions\<close> carry the suffix \<open>_action\<close>.
\<close>

type_synonym ('item, 'exn, 'w) action = "'item \<Rightarrow> 'w \<Rightarrow> ('exn + 'item) \<times> 'w"

record ('item, 'exn, 'w) actions =
  transcribe :: "'item \<Rightarrow> pystr \<Rightarrow> 'w \<Rightarrow> ('exn + 'item) \<times> 'w"
  identify_speakers_action :: "('item, 'exn, 'w) action"
  strip_html :: "('item, 'exn, 'w) action"
  break_into_paragraphs :: "('item, 'exn, 'w) action"
  backfill_timestamps :: "('item, 'exn, 'w) action"
  insert_section_headings_action :: "('item, 'exn, 'w) action"
  research_paras_action :: "('item, 'exn, 'w) action"
  add_summary_bullets_action :: "('item, 'exn, 'w) action"
  add_description_action :: "('item, 'exn, 'w) action"
  insert_frame_captures_action :: "('item, 'exn, 'w) action"

text \<open>
  To state which actions a run invokes, the model keeps a log of the calls beside the
  world: for each call the step, its argument, the language it was given (only
  \<open>transcribe\<close> gets one) and its outcome.
\<close>

datatype step =
    Transcribe | IdentifySpeakers | StripHtml | BreakIntoParagraphs | BackfillTimestamps
  | InsertSectionHeadings | ResearchParas | AddSummaryBullets | AddDescription
  | InsertFrameCaptures

record ('item, 'exn) call =
  called :: step
  argument :: 'item
  language_given :: "pystr option"
  outcome :: "'exn + 'item"

type_synonym ('item, 'exn, 'w) prog =
  "'w \<times> ('item, 'exn) call list \<Rightarrow> ('exn + 'item) \<times> 'w \<times> ('item, 'exn) call list"

definition invoke ::
  "step \<Rightarrow> pystr option \<Rightarrow> ('item, 'exn, 'w) action \<Rightarrow> 'item \<Rightarrow> ('item, 'exn, 'w) prog" where
  "invoke s lang f x =
     (\<lambda>(w, calls).
        case f x w of
          (r, w') \<Rightarrow>
            (r, w', calls @ [\<lparr> called = s, argument = x, language_given = lang, outcome = r \<rparr>]))"

text \<open>
  Sequencing of two statements: an exception raised by the first leaves the function, the
  second does not run. \<open>ret\<close> is a statement that leaves \<open>result\<close> as it is.
\<close>

definition and_then ::
  "('item, 'exn, 'w) prog \<Rightarrow> ('item \<Rightarrow> ('item, 'exn, 'w) prog) \<Rightarrow> ('item, 'exn, 'w) prog" where
  "and_then m k =
     (\<lambda>s. case m s of
            (Inl e, s') \<Rightarrow> (Inl e, s')
          | (Inr result, s') \<Rightarrow> k result s')"

definition ret :: "'item \<Rightarrow> ('item, 'exn, 'w) prog" where
  "ret result = (\<lambda>s. (Inr result, s))"

definition transcribe_with_options ::
  "('item, 'exn, 'w) actions \<Rightarrow> 'item \<Rightarrow> TranscribeOptions \<Rightarrow> pystr \<Rightarrow> ('item, 'exn, 'w) prog" where
  "transcribe_with_options A item options language =
     and_then (invoke Transcribe (Some language) (\<lambda>i. transcribe A i language) item) (\<lambda>result.
     and_then
       (if format options then
          and_then
            (if identify_speakers options
               then invoke IdentifySpeakers None (identify_speakers_action A) result
             else ret result) (\<lambda>result.
          and_then (invoke StripHtml None (strip_html A) result) (\<lambda>result.
          and_then (invoke BreakIntoParagraphs None (break_into_paragraphs A) result) (\<lambda>result.
          invoke BackfillTimestamps None (backfill_timestamps A) result)))
        else ret result) (\<lambda>result.
     and_then
       (if insert_section_headings options
          then invoke InsertSectionHeadings None (insert_section_headings_action A) result
        else ret result) (\<lambda>result.
     and_then
       (if research_paras options
          then invoke ResearchParas None (research_paras_action A) result
        else ret result) (\<lambda>result.
     and_then
       (if add_summary_bullets options
          then invoke AddSummaryBullets None (add_summary_bullets_action A) result
        else ret result) (\<lambda>result.
     and_then
       (if add_description options
          then invoke AddDescription None (add_description_action A) result
        else ret result) (\<lambda>result.
     and_then
       (if insert_frame_captures options
          then invoke InsertFrameCaptures None (insert_frame_captures_action A) result
        else ret result) (\<lambda>result.
     ret result)))))))"

text \<open>
  One call of \<open>transcribe_with_options\<close> from the world \<open>w\<close>, with an empty log: what it
  returns or raises, the calls it made, and the world it leaves.
\<close>

definition returned ::
  "('item, 'exn, 'w) actions \<Rightarrow> 'item \<Rightarrow> TranscribeOptions \<Rightarrow> pystr \<Rightarrow> 'w \<Rightarrow> 'exn + 'item" where
  "returned A item options language w =
     fst (transcribe_with_options A item options language (w, []))"

definition invoked ::
  "('item, 'exn, 'w) actions \<Rightarrow> 'item \<Rightarrow> TranscribeOptions \<Rightarrow> pystr \<Rightarrow> 'w
     \<Rightarrow> ('item, 'exn) call list" where
  "invoked A item options language w =
     snd (snd (transcribe_with_options A item options language (w, [])))"

definition world_after ::
  "('item, 'exn, 'w) actions \<Rightarrow> 'item \<Rightarrow> TranscribeOptions \<Rightarrow> pystr \<Rightarrow> 'w \<Rightarrow> 'w" where
  "world_after A item options language w =
     fst (snd (transcribe_with_options A item options language (w, [])))"

subsection \<open>The pipeline as the specification describes it\<close>

text \<open>
  The specification gives the pipeline as a fixed order of ten steps, each with the
  condition under which it runs, evaluated in sequence and stopping at the first failure.
  These definitions follow its words; the theorems compare them with
  \<open>transcribe_with_options\<close> above.
\<close>

definition spec_step_order :: "step list" where
  "spec_step_order =
     [Transcribe, IdentifySpeakers, StripHtml, BreakIntoParagraphs, BackfillTimestamps,
      InsertSectionHeadings, ResearchParas, AddSummaryBullets, AddDescription,
      InsertFrameCaptures]"

fun spec_enabled :: "TranscribeOptions \<Rightarrow> step \<Rightarrow> bool" where
  "spec_enabled options Transcribe = True"
| "spec_enabled options IdentifySpeakers = (format options \<and> identify_speakers options)"
| "spec_enabled options StripHtml = format options"
| "spec_enabled options BreakIntoParagraphs = format options"
| "spec_enabled options BackfillTimestamps = format options"
| "spec_enabled options InsertSectionHeadings = insert_section_headings options"
| "spec_enabled options ResearchParas = research_paras options"
| "spec_enabled options AddSummaryBullets = add_summary_bullets options"
| "spec_enabled options AddDescription = add_description options"
| "spec_enabled options InsertFrameCaptures = insert_frame_captures options"

definition spec_plan :: "TranscribeOptions \<Rightarrow> step list" where
  "spec_plan options = filter (spec_enabled options) spec_step_order"

fun action_of :: "('item, 'exn, 'w) actions \<Rightarrow> pystr \<Rightarrow> step \<Rightarrow> ('item, 'exn, 'w) action" where
  "action_of A language Transcribe = (\<lambda>i. transcribe A i language)"
| "action_of A language IdentifySpeakers = identify_speakers_action A"
| "action_of A language StripHtml = strip_html A"
| "action_of A language BreakIntoParagraphs = break_into_paragraphs A"
| "action_of A language BackfillTimestamps = backfill_timestamps A"
| "action_of A language InsertSectionHeadings = insert_section_headings_action A"
| "action_of A language ResearchParas = research_paras_action A"
| "action_of A language AddSummaryBullets = add_summary_bullets_action A"
| "action_of A language AddDescription = add_description_action A"
| "action_of A language InsertFrameCaptures = insert_frame_captures_action A"

definition language_of :: "pystr \<Rightarrow> step \<Rightarrow> pystr option" where
  "language_of language s = (if s = Transcribe then Some language else None)"

fun spec_run ::
  "('item, 'exn, 'w) actions \<Rightarrow> pystr \<Rightarrow> step list \<Rightarrow> 'item \<Rightarrow> ('item, 'exn, 'w) prog" where
  "spec_run A language [] x = ret x"
| "spec_run A language (s # ss) x =
     and_then (invoke s (language_of language s) (action_of A language s) x)
       (spec_run A language ss)"

text \<open>
  A log is threaded from \<open>x\<close> to the result \<open>r\<close> when the first call gets \<open>x\<close>, every
  later call gets what the call before it returned, a call that raises is the last one
  and its exception is \<open>r\<close>, and otherwise \<open>r\<close> is what the last call returned (\<open>x\<close> itself
  when there was no call).
\<close>

fun threaded :: "'item \<Rightarrow> ('item, 'exn) call list \<Rightarrow> 'exn + 'item \<Rightarrow> bool" where
  "threaded x [] r \<longleftrightarrow> r = Inr x"
| "threaded x (c # cs) r \<longleftrightarrow>
     argument c = x \<and>
     (case outcome c of
        Inl e \<Rightarrow> cs = [] \<and> r = Inl e
      | Inr y \<Rightarrow> threaded y cs r)"

text \<open>
  A log is genuine from the world \<open>w\<close> when every call in it is a call of the action of
  its step: its outcome is what that action gives for the call's argument in the world
  the calls before it have left, and \<open>transcribe\<close> alone was given the language.
  \<open>replay\<close> is the world that the calls of a log leave.
\<close>

fun genuine ::
  "('item, 'exn, 'w) actions \<Rightarrow> pystr \<Rightarrow> 'w \<Rightarrow> ('item, 'exn) call list \<Rightarrow> bool" where
  "genuine A language w [] \<longleftrightarrow> True"
| "genuine A language w (c # cs) \<longleftrightarrow>
     language_given c = language_of language (called c) \<and>
     outcome c = fst (action_of A language (called c) (argument c) w) \<and>
     genuine A language (snd (action_of A language (called c) (argument c) w)) cs"

fun replay ::
  "('item, 'exn, 'w) actions \<Rightarrow> pystr \<Rightarrow> 'w \<Rightarrow> ('item, 'exn) call list \<Rightarrow> 'w" where
  "replay A language w [] = w"
| "replay A language w (c # cs) =
     replay A language (snd (action_of A language (called c) (argument c) w)) cs"

text \<open>
  Collaborators to evaluate the orchestrator on: items and exceptions are numbers, the
  world counts the calls made. Every action adds its own number to the item, and the step
  \<open>failing\<close> (if any) raises the item it was given.
\<close>

definition test_action :: "step option \<Rightarrow> step \<Rightarrow> nat \<Rightarrow> (nat, nat, nat) action" where
  "test_action failing s n = (\<lambda>x w. (if failing = Some s then Inl x else Inr (x + n), Suc w))"

definition test_actions :: "step option \<Rightarrow> (nat, nat, nat) actions" where
  "test_actions failing =
     \<lparr> transcribe = (\<lambda>i language. test_action failing Transcribe (length language) i),
       identify_speakers_action = test_action failing IdentifySpeakers 10,
       strip_html = test_action failing StripHtml 20,
       break_into_paragraphs = test_action failing BreakIntoParagraphs 30,
       backfill_timestamps = test_action failing BackfillTimestamps 40,
       insert_section_headings_action = test_action failing InsertSectionHeadings 50,
       research_paras_action = test_action failing ResearchParas 60,
       add_summary_bullets_action = test_action failing AddSummaryBullets 70,
       add_description_action = test_action failing AddDescription 80,
       insert_frame_captures_action = test_action failing InsertFrameCaptures 90 \<rparr>"

section \<open>The presets and the merge\<close>

text \<open>
  C6: the four preset factories return the flag combinations of the preset table:
  \<open>basic\<close> has all seven flags false, \<open>formatted\<close> has only \<open>format\<close> and
  \<open>identify_speakers\<close> true, and \<open>annotated\<close> and \<open>deep\<close> have every flag true except that
  \<open>research_paras\<close> is false in \<open>annotated\<close>; so the two agree once \<open>research_paras\<close> is
  set to the same value.
\<close>

theorem presets_table:
  "basic = \<lparr> identify_speakers = False, format = False, insert_section_headings = False,
             research_paras = False, add_summary_bullets = False, add_description = False,
             insert_frame_captures = False \<rparr> \<and>
   formatted = \<lparr> identify_speakers = True, format = True, insert_section_headings = False,
                 research_paras = False, add_summary_bullets = False, add_description = False,
                 insert_frame_captures = False \<rparr> \<and>
   annotated = \<lparr> identify_speakers = True, format = True, insert_section_headings = True,
                 research_paras = False, add_summary_bullets = True, add_description = True,
                 insert_frame_captures = True \<rparr> \<and>
   deep = \<lparr> identify_speakers = True, format = True, insert_section_headings = True,
            research_paras = True, add_summary_bullets = True, add_description = True,
            insert_frame_captures = True \<rparr> \<and>
   annotated \<lparr> research_paras := True \<rparr> = deep \<and>
   deep \<lparr> research_paras := False \<rparr> = annotated"
  by (simp add: basic_def formatted_def annotated_def deep_def cls_def)

text \<open>
  The body of \<open>merge_with\<close> (lines 108 to 116) is the logical OR of each of the seven
  fields of its operands; on the field values it is commutative and associative, and
  \<open>basic\<close> is its identity element.
\<close>

lemma merge_with_or_monoid:
  "identify_speakers (merge_with a b) = (identify_speakers a \<or> identify_speakers b) \<and>
   format (merge_with a b) = (format a \<or> format b) \<and>
   insert_section_headings (merge_with a b)
     = (insert_section_headings a \<or> insert_section_headings b) \<and>
   research_paras (merge_with a b) = (research_paras a \<or> research_paras b) \<and>
   add_summary_bullets (merge_with a b) = (add_summary_bullets a \<or> add_summary_bullets b) \<and>
   add_description (merge_with a b) = (add_description a \<or> add_description b) \<and>
   insert_frame_captures (merge_with a b)
     = (insert_frame_captures a \<or> insert_frame_captures b) \<and>
   merge_with a b = merge_with b a \<and>
   merge_with (merge_with a b) c = merge_with a (merge_with b c) \<and>
   merge_with basic a = a \<and>
   merge_with a basic = a"
  by (cases a, cases b, cases c) (auto simp add: merge_with_def basic_def cls_def)

text \<open>The configuration \<open>from_with_flags\<close> gives is the fields of the instance.\<close>

lemma from_with_flags_of_instance:
  "from_with_flags rt s =
     (case from_with_flags_instance rt s of
        Inl e \<Rightarrow> Inl e
      | Inr options \<Rightarrow> Inr (flags options))"
  by (simp add: from_with_flags_def from_with_flags_instance_def Let_def)

text \<open>
  On instances whose dictionary does not hold the name \<open>merge_with\<close>, the call
  \<open>a.merge_with(b)\<close> is the method body, so the laws above are laws of the call.
\<close>

lemma call_merge_with_unshadowed:
  assumes "str ''merge_with'' \<notin> set (shadowed a)" and "str ''merge_with'' \<notin> set (shadowed b)"
  shows "call_merge_with a b = Inr \<lparr> flags = merge_with (flags a) (flags b), shadowed = [] \<rparr>"
    and "call_merge_with a b = call_merge_with b a"
    and "call_merge_with \<lparr> flags = merge_with (flags a) (flags b), shadowed = [] \<rparr> c
         = call_merge_with a \<lparr> flags = merge_with (flags b) (flags c), shadowed = [] \<rparr>"
    and "\<exists>r. call_merge_with \<lparr> flags = basic, shadowed = [] \<rparr> a = Inr r \<and> py_eq r a"
proof -
  note laws = merge_with_or_monoid [of "flags a" "flags b" "flags c"]
  from laws have comm: "merge_with (flags a) (flags b) = merge_with (flags b) (flags a)"
    by blast
  from laws have assoc: "merge_with (merge_with (flags a) (flags b)) (flags c)
      = merge_with (flags a) (merge_with (flags b) (flags c))"
    by blast
  from laws have unit: "merge_with basic (flags a) = flags a"
    by blast
  show "call_merge_with a b = Inr \<lparr> flags = merge_with (flags a) (flags b), shadowed = [] \<rparr>"
    using assms by (simp add: call_merge_with_def)
  show "call_merge_with a b = call_merge_with b a"
    using assms by (simp add: call_merge_with_def comm)
  show "call_merge_with \<lparr> flags = merge_with (flags a) (flags b), shadowed = [] \<rparr> c
         = call_merge_with a \<lparr> flags = merge_with (flags b) (flags c), shadowed = [] \<rparr>"
    using assms by (simp add: call_merge_with_def assoc)
  show "\<exists>r. call_merge_with \<lparr> flags = basic, shadowed = [] \<rparr> a = Inr r \<and> py_eq r a"
    by (simp add: call_merge_with_def py_eq_def unit)
qed

text \<open>
  C5 says that \<open>merge_with\<close> is the OR of the seven flags of its operands and that, for all
  configurations, \<open>a.merge_with(b) == b.merge_with(a)\<close>, merging is associative and
  \<open>basic()\<close> is the identity. The method body is that OR, but the call is not commutative
  on every configuration the repository constructs: the instance that
  \<open>from_with_flags("merge_with")\<close> returns holds \<open>True\<close> under the name \<open>merge_with\<close> in
  its dictionary (line 93), so calling \<open>merge_with\<close> on it raises \<open>TypeError\<close>, while
  \<open>basic()\<close> merged with it returns the default configuration.
\<close>

theorem merge_with_on_shadowed_instance:
  "from_with_flags_instance rt (str ''merge_with'')
     = Inr \<lparr> flags = basic, shadowed = [str ''merge_with''] \<rparr> \<and>
   call_merge_with \<lparr> flags = basic, shadowed = [str ''merge_with''] \<rparr>
                   \<lparr> flags = basic, shadowed = [] \<rparr>
     = Inl (TypeError (quoted (str ''bool'') @ str '' object is not callable'')) \<and>
   call_merge_with \<lparr> flags = basic, shadowed = [] \<rparr>
                   \<lparr> flags = basic, shadowed = [str ''merge_with''] \<rparr>
     = Inr \<lparr> flags = basic, shadowed = [] \<rparr>"
proof (intro conjI)
  show "from_with_flags_instance rt (str ''merge_with'')
     = Inr \<lparr> flags = basic, shadowed = [str ''merge_with''] \<rparr>"
    by (simp add: from_with_flags_instance_def str_def py_strip_def py_isspace_def comma_def
        hasattr_def setattr_True_def dataclass_fields_def class_attributes_def basic_def)
  show "call_merge_with \<lparr> flags = basic, shadowed = [str ''merge_with''] \<rparr>
                   \<lparr> flags = basic, shadowed = [] \<rparr>
     = Inl (TypeError (quoted (str ''bool'') @ str '' object is not callable''))"
    by (simp add: call_merge_with_def)
  show "call_merge_with \<lparr> flags = basic, shadowed = [] \<rparr>
                   \<lparr> flags = basic, shadowed = [str ''merge_with''] \<rparr>
     = Inr \<lparr> flags = basic, shadowed = [] \<rparr>"
    by (simp add: call_merge_with_def merge_with_def basic_def cls_def)
qed

section \<open>Parsing flag text\<close>

lemma py_split_no_sep: "sep \<notin> set s \<Longrightarrow> py_split sep s = [s]"
  by (induction s) auto

lemma py_split_append_sep:
  "sep \<notin> set t \<Longrightarrow> py_split sep (t @ sep # s) = t # py_split sep s"
  by (induction t) auto

lemma py_split_join:
  "ts \<noteq> [] \<Longrightarrow> \<forall>t\<in>set ts. sep \<notin> set t \<Longrightarrow> py_split sep (py_join [sep] ts) = ts"
  by (induction "[sep]" ts rule: py_join.induct) (auto simp: py_split_no_sep py_split_append_sep)

lemma py_strip_empty_iff: "py_strip s = [] \<longleftrightarrow> (\<forall>c\<in>set s. py_isspace c)"
proof
  assume "py_strip s = []"
  then have all: "\<forall>x\<in>set (dropWhile py_isspace s). py_isspace x"
    by (simp add: py_strip_def)
  have "dropWhile py_isspace s = []"
  proof (rule ccontr)
    assume ne: "dropWhile py_isspace s \<noteq> []"
    then have "\<not> py_isspace (hd (dropWhile py_isspace s))" by (rule hd_dropWhile)
    moreover from ne have "hd (dropWhile py_isspace s) \<in> set (dropWhile py_isspace s)" by simp
    ultimately show False using all by blast
  qed
  then show "\<forall>c\<in>set s. py_isspace c" by simp
next
  assume "\<forall>c\<in>set s. py_isspace c"
  then have "dropWhile py_isspace s = []" by simp
  then show "py_strip s = []" by (simp add: py_strip_def del: dropWhile_eq_Nil_conv)
qed

lemma py_strip_prepend: "\<forall>c\<in>set l. py_isspace c \<Longrightarrow> py_strip (l @ s) = py_strip s"
  by (simp add: py_strip_def dropWhile_append2)

lemma py_strip_append:
  assumes "\<forall>c\<in>set r. py_isspace c"
  shows "py_strip (s @ r) = py_strip s"
proof (cases "\<forall>c\<in>set s. py_isspace c")
  case True
  with assms have "\<forall>c\<in>set (s @ r). py_isspace c" by auto
  then have "py_strip (s @ r) = []" by (simp only: py_strip_empty_iff)
  moreover from True have "py_strip s = []" by (simp only: py_strip_empty_iff)
  ultimately show ?thesis by simp
next
  case False
  then obtain x where x: "x \<in> set s" "\<not> py_isspace x" by blast
  then have "dropWhile py_isspace (s @ r) = dropWhile py_isspace s @ r"
    by (simp add: dropWhile_append1)
  moreover from assms have "dropWhile py_isspace (rev r @ rev (dropWhile py_isspace s))
      = dropWhile py_isspace (rev (dropWhile py_isspace s))"
    by (intro dropWhile_append2) simp
  ultimately show ?thesis
    by (simp add: py_strip_def)
qed

lemma comma_not_space: "\<not> py_isspace comma"
  by (simp add: py_isspace_def comma_def)

lemma set_flags_skip_empty:
  "set_flags rt (filter (\<lambda>t. t \<noteq> []) ts) options = set_flags rt ts options"
  by (induction ts arbitrary: options) (auto split: sum.splits)

lemma from_with_flags_tokens:
  "from_with_flags rt s =
     (case set_flags rt (map py_strip (py_split comma s)) \<lparr> flags = cls, shadowed = [] \<rparr> of
        Inl e \<Rightarrow> Inl e
      | Inr options \<Rightarrow> Inr (flags options))"
proof (cases "py_strip s = []")
  case True
  then have ws: "\<forall>c\<in>set s. py_isspace c" by (simp only: py_strip_empty_iff)
  with comma_not_space have "comma \<notin> set s" by blast
  then have "py_split comma s = [s]" by (rule py_split_no_sep)
  with True show ?thesis by (simp add: from_with_flags_def)
next
  case False
  then show ?thesis by (simp add: from_with_flags_def)
qed


lemma tokens_of_join:
  assumes "\<forall>t\<in>set ts. comma \<notin> set t"
  shows "filter (\<lambda>t. t \<noteq> []) (map py_strip (py_split comma (py_join [comma] ts)))
         = filter (\<lambda>t. t \<noteq> []) (map py_strip ts)"
proof (cases "ts = []")
  case True
  then show ?thesis by (simp add: py_strip_def)
next
  case False
  then have "py_split comma (py_join [comma] ts) = ts" using assms by (rule py_split_join)
  then show ?thesis by simp
qed

lemma from_with_flags_join:
  assumes "\<forall>t\<in>set ts. comma \<notin> set t"
  shows "from_with_flags rt (py_join [comma] ts) =
     (case set_flags rt (filter (\<lambda>t. t \<noteq> []) (map py_strip ts)) \<lparr> flags = cls, shadowed = [] \<rparr> of
        Inl e \<Rightarrow> Inl e
      | Inr options \<Rightarrow> Inr (flags options))"
proof -
  have "set_flags rt (map py_strip (py_split comma (py_join [comma] ts))) \<lparr> flags = cls, shadowed = [] \<rparr>
      = set_flags rt (filter (\<lambda>t. t \<noteq> []) (map py_strip (py_split comma (py_join [comma] ts))))
          \<lparr> flags = cls, shadowed = [] \<rparr>"
    by (simp only: set_flags_skip_empty)
  also have "\<dots> = set_flags rt (filter (\<lambda>t. t \<noteq> []) (map py_strip ts)) \<lparr> flags = cls, shadowed = [] \<rparr>"
    using assms by (simp only: tokens_of_join)
  finally show ?thesis by (simp only: from_with_flags_tokens)
qed

lemmas eval_parser =
  from_with_flags_def str_def py_strip_def py_isspace_def comma_def hasattr_def setattr_True_def
  dataclass_fields_def class_attributes_def set_field_def

text \<open>
  C8: \<open>from_with_flags\<close> applied to the empty string, or to a string of whitespace only,
  returns the default configuration, all seven flags false, and does not fail.
\<close>

theorem from_with_flags_whitespace_only:
  assumes "\<forall>c\<in>set s. py_isspace c"
  shows "from_with_flags rt s = Inr basic"
proof -
  from assms have "py_strip s = []" by (simp only: py_strip_empty_iff)
  then show ?thesis by (simp add: from_with_flags_def basic_def)
qed

text \<open>The empty string and the string of three spaces.\<close>

theorem from_with_flags_whitespace_only_witness:
  "list_all py_isspace [] \<and> from_with_flags cpython [] = Inr basic \<and>
   list_all py_isspace (str ''   '') \<and> from_with_flags cpython (str ''   '') = Inr basic"
  using from_with_flags_whitespace_only [of "[]" cpython]
    from_with_flags_whitespace_only [of "str ''   ''" cpython]
  by (simp add: str_def py_isspace_def)

text \<open>
  C9: whitespace around a comma-separated token is trimmed before the token is matched.
  In general, tokens \<open>t\<close> without a comma, each padded with whitespace \<open>l\<close> on the left
  and \<open>r\<close> on the right and joined with commas, parse to the same result (configuration
  or error) as the tokens joined without the padding. In particular
  \<open>" format , insert_section_headings "\<close> parses as \<open>"format,insert_section_headings"\<close>
  does, to the configuration with \<open>format\<close> and \<open>insert_section_headings\<close> true and the
  other five flags false.
\<close>

theorem from_with_flags_whitespace_insensitive:
  "((\<forall>(l, t, r)\<in>set pads. (\<forall>c\<in>set l. py_isspace c) \<and> (\<forall>c\<in>set r. py_isspace c)
        \<and> comma \<notin> set t) \<longrightarrow>
    from_with_flags rt (py_join [comma] (map (\<lambda>(l, t, r). l @ t @ r) pads))
      = from_with_flags rt (py_join [comma] (map (\<lambda>(l, t, r). t) pads))) \<and>
   from_with_flags rt (str '' format , insert_section_headings '')
      = from_with_flags rt (str ''format,insert_section_headings'') \<and>
   from_with_flags rt (str ''format,insert_section_headings'')
      = Inr \<lparr> identify_speakers = False, format = True, insert_section_headings = True,
              research_paras = False, add_summary_bullets = False, add_description = False,
              insert_frame_captures = False \<rparr>"
proof (intro conjI impI)
  assume pads: "\<forall>(l, t, r)\<in>set pads. (\<forall>c\<in>set l. py_isspace c) \<and> (\<forall>c\<in>set r. py_isspace c)
        \<and> comma \<notin> set t"
  have strip: "map py_strip (map (\<lambda>(l, t, r). l @ t @ r) pads) = map py_strip (map (\<lambda>(l, t, r). t) pads)"
    using pads by (auto simp: py_strip_prepend py_strip_append)
  have "\<forall>t\<in>set (map (\<lambda>(l, t, r). l @ t @ r) pads). comma \<notin> set t"
    using pads comma_not_space by fastforce
  moreover have "\<forall>t\<in>set (map (\<lambda>(l, t, r). t) pads). comma \<notin> set t"
    using pads by fastforce
  ultimately show "from_with_flags rt (py_join [comma] (map (\<lambda>(l, t, r). l @ t @ r) pads))
      = from_with_flags rt (py_join [comma] (map (\<lambda>(l, t, r). t) pads))"
    by (simp only: from_with_flags_join strip)
next
  show "from_with_flags rt (str '' format , insert_section_headings '')
      = from_with_flags rt (str ''format,insert_section_headings'')"
    by (simp add: eval_parser)
next
  show "from_with_flags rt (str ''format,insert_section_headings'')
      = Inr \<lparr> identify_speakers = False, format = True, insert_section_headings = True,
              research_paras = False, add_summary_bullets = False, add_description = False,
              insert_frame_captures = False \<rparr>"
    by (simp add: eval_parser cls_def)
qed


text \<open>The padding of the example, one space on each side of both tokens.\<close>

theorem from_with_flags_whitespace_insensitive_witness:
  "list_all (\<lambda>(l, t, r). list_all py_isspace l \<and> list_all py_isspace r \<and> comma \<notin> set t)
     [(str '' '', str ''format'', str '' ''), (str '' '', str ''insert_section_headings'', str '' '')] \<and>
   py_join [comma] (map (\<lambda>(l, t, r). l @ t @ r)
     [(str '' '', str ''format'', str '' ''), (str '' '', str ''insert_section_headings'', str '' '')])
     = str '' format , insert_section_headings '' \<and>
   py_join [comma] (map (\<lambda>(l, t, r). t)
     [(str '' '', str ''format'', str '' ''), (str '' '', str ''insert_section_headings'', str '' '')])
     = str ''format,insert_section_headings'' \<and>
   from_with_flags cpython (str '' format , insert_section_headings '')
     = from_with_flags cpython (str ''format,insert_section_headings'')"
  using from_with_flags_whitespace_insensitive
    [of "[(str '' '', str ''format'', str '' ''), (str '' '', str ''insert_section_headings'', str '' '')]"
        cpython]
  by (simp add: str_def comma_def py_isspace_def)

text \<open>
  C10: tokens that are empty after trimming, as leading, trailing or consecutive commas
  produce them, are skipped and not treated as unknown: joining tokens without commas
  parses to the same result as joining only those that are not empty after trimming. In
  particular \<open>"format,,"\<close> parses as \<open>"format"\<close> does, to the configuration with only
  \<open>format\<close> true.
\<close>

theorem from_with_flags_skips_empty_tokens:
  "((\<forall>t\<in>set ts. comma \<notin> set t) \<longrightarrow>
    from_with_flags rt (py_join [comma] ts)
      = from_with_flags rt (py_join [comma] (filter (\<lambda>t. py_strip t \<noteq> []) ts))) \<and>
   from_with_flags rt (str ''format,,'') = from_with_flags rt (str ''format'') \<and>
   from_with_flags rt (str ''format,,'')
      = Inr \<lparr> identify_speakers = False, format = True, insert_section_headings = False,
              research_paras = False, add_summary_bullets = False, add_description = False,
              insert_frame_captures = False \<rparr>"
proof (intro conjI impI)
  assume ts: "\<forall>t\<in>set ts. comma \<notin> set t"
  then have ts': "\<forall>t\<in>set (filter (\<lambda>t. py_strip t \<noteq> []) ts). comma \<notin> set t" by simp
  have "filter (\<lambda>t. t \<noteq> []) (map py_strip (filter (\<lambda>t. py_strip t \<noteq> []) ts))
      = filter (\<lambda>t. t \<noteq> []) (map py_strip ts)"
    by (induction ts) auto
  then show "from_with_flags rt (py_join [comma] ts)
      = from_with_flags rt (py_join [comma] (filter (\<lambda>t. py_strip t \<noteq> []) ts))"
    by (simp only: from_with_flags_join [OF ts] from_with_flags_join [OF ts'])
next
  show "from_with_flags rt (str ''format,,'') = from_with_flags rt (str ''format'')"
    by (simp add: eval_parser)
next
  show "from_with_flags rt (str ''format,,'')
      = Inr \<lparr> identify_speakers = False, format = True, insert_section_headings = False,
              research_paras = False, add_summary_bullets = False, add_description = False,
              insert_frame_captures = False \<rparr>"
    by (simp add: eval_parser cls_def)
qed

text \<open>A leading comma, two consecutive commas, a blank token and a trailing comma.\<close>

theorem from_with_flags_skips_empty_tokens_witness:
  "list_all (\<lambda>t. comma \<notin> set t) [[], str ''format'', [], str '' '', str ''research_paras'', []] \<and>
   py_join [comma] [[], str ''format'', [], str '' '', str ''research_paras'', []]
     = str '',format,, ,research_paras,'' \<and>
   py_join [comma] (filter (\<lambda>t. py_strip t \<noteq> [])
       [[], str ''format'', [], str '' '', str ''research_paras'', []])
     = str ''format,research_paras'' \<and>
   from_with_flags cpython (str '',format,, ,research_paras,'')
     = from_with_flags cpython (str ''format,research_paras'')"
  using from_with_flags_skips_empty_tokens
    [of "[[], str ''format'', [], str '' '', str ''research_paras'', []]" cpython]
  by (simp add: str_def comma_def py_isspace_def py_strip_def)

text \<open>
  C1 says that every token that is not empty after trimming and is not one of the seven
  flag names makes \<open>from_with_flags\<close> fail, with an error that reports the token and the
  seven valid names. The code does not do that for a token that names another attribute
  of the instance: \<open>hasattr\<close> holds for it, so line 93 stores \<open>True\<close> under that name and
  the loop goes on. The token \<open>deep\<close>, a preset of the class, yields the default
  configuration, and in \<open>"merge_with,format"\<close> the token after the method name is
  processed as well.
\<close>

theorem from_with_flags_accepts_attribute_names:
  "from_with_flags rt (str ''deep'') = Inr basic \<and>
   from_with_flags rt (str ''merge_with,format'') = Inr (basic \<lparr> format := True \<rparr>)"
  by (simp add: eval_parser basic_def)

text \<open>
  A token that is no attribute of the instance at all is rejected as C1 describes, and
  the loop stops there: when the tokens before it are empty or field names, the result is
  the error of line 98 for that token, whatever follows it.
\<close>

lemma unknown_option_fresh:
  "shadowed options = [] \<Longrightarrow>
   unknown_option options t =
     ValueError (str ''Unknown option '' @ str [CHR 0x27] @ t @ str [CHR 0x27] @
                 str ''. Valid options: '' @
                 str ''identify_speakers, format, insert_section_headings, research_paras, '' @
                 str ''add_summary_bullets, add_description, insert_frame_captures'')"
  by (simp add: unknown_option_def dataclass_fields_def py_startswith_def str_def)

lemma set_flags_unknown_token:
  assumes "\<forall>p\<in>set pre. p = [] \<or> p \<in> set dataclass_fields"
    and "t \<noteq> []" and "t \<notin> set dataclass_fields" and "t \<notin> set class_attributes"
    and "rt t = None" and "shadowed options = []"
  shows "\<exists>options'. shadowed options' = [] \<and>
           set_flags rt (pre @ t # post) options = Inl (unknown_option options' t)"
  using assms
proof (induction pre arbitrary: options)
  case Nil
  then show ?case by (auto simp: hasattr_def)
next
  case (Cons p pre)
  show ?case
  proof (cases "p = []")
    case True
    with Cons show ?thesis by simp
  next
    case False
    with Cons.prems have p: "p \<in> set dataclass_fields" by simp
    let ?o = "options \<lparr> flags := set_field p (flags options) \<rparr>"
    from Cons.prems have "shadowed ?o = []" by simp
    with Cons.IH [of ?o] Cons.prems obtain options' where
      "shadowed options' = []"
      "set_flags rt (pre @ t # post) ?o = Inl (unknown_option options' t)"
      by auto
    with False p show ?thesis by (auto simp: hasattr_def setattr_True_def)
  qed
qed

section \<open>The order of the steps\<close>

lemma and_then_ret [simp]: "and_then (ret x) k = k x"
  by (simp add: and_then_def ret_def)

lemma and_then_ret_right [simp]: "and_then m ret = m"
  by (auto simp: and_then_def ret_def fun_eq_iff split: prod.splits sum.splits)

lemma and_then_assoc:
  "and_then (and_then m k) h = and_then m (\<lambda>x. and_then (k x) h)"
  by (auto simp: and_then_def fun_eq_iff split: prod.splits sum.splits)

lemma spec_run_Nil_fun: "spec_run A language [] = ret"
  by (rule ext) simp

lemma spec_run_Cons_fun:
  "spec_run A language (s # ss) =
     (\<lambda>x. and_then (invoke s (language_of language s) (action_of A language s) x)
            (spec_run A language ss))"
  by (rule ext) simp

lemma transcribe_with_options_spec_run:
  "transcribe_with_options A item options language
     = spec_run A language (spec_plan options) item"
  by (simp add: transcribe_with_options_def spec_plan_def spec_step_order_def language_of_def
      and_then_assoc spec_run_Nil_fun spec_run_Cons_fun)


lemma invoke_eq:
  "invoke s lang f x (w, cs) =
     (fst (f x w), snd (f x w),
      cs @ [\<lparr> called = s, argument = x, language_given = lang, outcome = fst (f x w) \<rparr>])"
  by (simp add: invoke_def split: prod.splits)

lemma spec_run_log:
  "\<exists>new. snd (snd (spec_run A language ss x (w, cs))) = cs @ new \<and>
         threaded x new (fst (spec_run A language ss x (w, cs))) \<and>
         map called new = take (length new) ss \<and>
         (isl (fst (spec_run A language ss x (w, cs))) \<or> length new = length ss) \<and>
         list_all (\<lambda>c. language_given c = language_of language (called c)) new"
proof (induction ss arbitrary: x w cs)
  case Nil
  show ?case by (simp add: ret_def)
next
  case (Cons s ss)
  let ?f = "action_of A language s"
  let ?c = "\<lparr> called = s, argument = x, language_given = language_of language s,
              outcome = fst (?f x w) \<rparr>"
  show ?case
  proof (cases "fst (?f x w)")
    case (Inl e)
    then have "spec_run A language (s # ss) x (w, cs) = (Inl e, snd (?f x w), cs @ [?c])"
      by (simp add: and_then_def invoke_eq)
    with Inl show ?thesis by simp
  next
    case (Inr y)
    then have run: "spec_run A language (s # ss) x (w, cs)
        = spec_run A language ss y (snd (?f x w), cs @ [?c])"
      by (simp add: and_then_def invoke_eq)
    from Cons.IH [of y "snd (?f x w)" "cs @ [?c]"] obtain new where
      new: "snd (snd (spec_run A language ss y (snd (?f x w), cs @ [?c]))) = (cs @ [?c]) @ new"
        "threaded y new (fst (spec_run A language ss y (snd (?f x w), cs @ [?c])))"
        "map called new = take (length new) ss"
        "isl (fst (spec_run A language ss y (snd (?f x w), cs @ [?c]))) \<or> length new = length ss"
        "list_all (\<lambda>c. language_given c = language_of language (called c)) new"
      by blast
    show ?thesis
    proof (intro exI [of _ "?c # new"] conjI)
      show "snd (snd (spec_run A language (s # ss) x (w, cs))) = cs @ ?c # new"
        using new(1) by (simp only: run) simp
      show "threaded x (?c # new) (fst (spec_run A language (s # ss) x (w, cs)))"
        using new(2) Inr by (simp only: run) simp
      show "map called (?c # new) = take (length (?c # new)) (s # ss)"
        using new(3) by simp
      show "isl (fst (spec_run A language (s # ss) x (w, cs))) \<or> length (?c # new) = length (s # ss)"
        using new(4) by (simp only: run) simp
      show "list_all (\<lambda>c. language_given c = language_of language (called c)) (?c # new)"
        using new(5) by simp
    qed
  qed
qed

lemma run_log:
  "threaded item (invoked A item options language w) (returned A item options language w) \<and>
   map called (invoked A item options language w)
     = take (length (invoked A item options language w)) (spec_plan options) \<and>
   (isl (returned A item options language w) \<or>
    map called (invoked A item options language w) = spec_plan options) \<and>
   list_all (\<lambda>c. language_given c = language_of language (called c))
     (invoked A item options language w)"
  using spec_run_log [of A language "spec_plan options" item w "[]"]
  by (auto simp: invoked_def returned_def transcribe_with_options_spec_run)

lemma distinct_spec_plan: "distinct (spec_plan options)"
  by (simp add: spec_plan_def spec_step_order_def)

lemma spec_plan_deep: "spec_plan deep = spec_step_order"
  by (simp add: spec_plan_def spec_step_order_def deep_def cls_def)




lemma threaded_chain:
  "threaded x cs r \<Longrightarrow> Suc i < length cs \<Longrightarrow> outcome (cs ! i) = Inr (argument (cs ! Suc i))"
proof (induction cs arbitrary: x i)
  case Nil
  then show ?case by simp
next
  case (Cons c cs)
  from Cons.prems obtain c' cs' where cs: "cs = c' # cs'" by (cases cs) auto
  with Cons.prems obtain y where y: "outcome c = Inr y" "threaded y cs r"
    by (auto split: sum.splits)
  show ?case
  proof (cases i)
    case 0
    with y cs show ?thesis by simp
  next
    case (Suc j)
    with Cons.prems have "Suc j < length cs" by simp
    with y(2) have "outcome (cs ! j) = Inr (argument (cs ! Suc j))" by (rule Cons.IH)
    with Suc show ?thesis by simp
  qed
qed

lemma threaded_last:
  "threaded x cs r \<Longrightarrow> cs \<noteq> [] \<Longrightarrow> r = outcome (last cs)"
  by (induction cs arbitrary: x) (auto split: sum.splits)

lemma spec_plan_Cons:
  "spec_plan options = Transcribe # filter (spec_enabled options) (tl spec_step_order)"
  by (simp add: spec_plan_def spec_step_order_def)

lemma first_call:
  "\<exists>rest. invoked A item options language w =
     \<lparr> called = Transcribe, argument = item, language_given = Some language,
       outcome = fst (transcribe A item language w) \<rparr> # rest"
proof -
  let ?c = "\<lparr> called = Transcribe, argument = item, language_given = Some language,
       outcome = fst (transcribe A item language w) \<rparr>"
  let ?ss = "filter (spec_enabled options) (tl spec_step_order)"
  show ?thesis
  proof (cases "fst (transcribe A item language w)")
    case (Inl e)
    then have "invoked A item options language w = [?c]"
      by (simp add: invoked_def transcribe_with_options_spec_run spec_plan_Cons and_then_def
          invoke_eq language_of_def)
    then show ?thesis by simp
  next
    case (Inr y)
    then have "invoked A item options language w
        = snd (snd (spec_run A language ?ss y (snd (transcribe A item language w), [] @ [?c])))"
      by (simp add: invoked_def transcribe_with_options_spec_run spec_plan_Cons and_then_def
          invoke_eq language_of_def)
    moreover from spec_run_log [of A language ?ss y "snd (transcribe A item language w)" "[] @ [?c]"]
    obtain new where
      "snd (snd (spec_run A language ?ss y (snd (transcribe A item language w), [] @ [?c])))
         = ([] @ [?c]) @ new"
      by blast
    ultimately show ?thesis by simp
  qed
qed

lemma distinct_invoked: "distinct (map called (invoked A item options language w))"
proof -
  have "distinct (take (length (invoked A item options language w)) (spec_plan options))"
    using distinct_spec_plan by (rule distinct_take)
  then show ?thesis using run_log [of item A options language w] by simp
qed

text \<open>
  C4: for every item, configuration and language, \<open>transcribe_with_options\<close> invokes the
  transcription engine exactly once, with that item and language, before any other step:
  the log is not empty, its first call is the call of \<open>transcribe\<close>, and no other call in
  it is one. With \<open>basic\<close> that call is the only one, and what it returns (or raises), and
  the world it leaves, is what \<open>transcribe_with_options\<close> returns and leaves.
\<close>

theorem transcribe_exactly_once_first:
  "invoked A item options language w \<noteq> [] \<and>
   hd (invoked A item options language w)
     = \<lparr> called = Transcribe, argument = item, language_given = Some language,
         outcome = fst (transcribe A item language w) \<rparr> \<and>
   length (filter (\<lambda>c. called c = Transcribe) (invoked A item options language w)) = 1 \<and>
   invoked A item basic language w
     = [\<lparr> called = Transcribe, argument = item, language_given = Some language,
          outcome = fst (transcribe A item language w) \<rparr>] \<and>
   returned A item basic language w = fst (transcribe A item language w) \<and>
   world_after A item basic language w = snd (transcribe A item language w)"
proof -
  let ?c = "\<lparr> called = Transcribe, argument = item, language_given = Some language,
       outcome = fst (transcribe A item language w) \<rparr>"
  from first_call [of A item options language w] obtain rest where
    rest: "invoked A item options language w = ?c # rest" by blast
  from distinct_invoked [of A item options language w] rest
  have "Transcribe \<notin> called ` set rest" by simp
  then have "filter (\<lambda>c. called c = Transcribe) rest = []"
    by (force simp: filter_empty_conv)
  with rest have once:
    "length (filter (\<lambda>c. called c = Transcribe) (invoked A item options language w)) = 1"
    by simp
  have basic_run: "transcribe_with_options A item basic language (w, [])
      = (fst (transcribe A item language w), snd (transcribe A item language w), [?c])"
    by (simp add: transcribe_with_options_def basic_def cls_def and_then_def ret_def invoke_eq
        split: sum.splits)
  from rest once basic_run show ?thesis
    by (simp add: invoked_def returned_def world_after_def)
qed


lemmas eval_run =
  invoked_def returned_def world_after_def transcribe_with_options_def and_then_def ret_def
  invoke_def test_actions_def test_action_def str_def cls_def basic_def formatted_def deep_def

text \<open>
  Every call in the log of a run is a call of the action of its step, made in the world
  the calls before it left, and the world after the run is the one these calls leave.
\<close>

lemma spec_run_genuine:
  "\<exists>new. snd (snd (spec_run A language ss x (w, cs))) = cs @ new \<and>
         genuine A language w new \<and>
         fst (snd (spec_run A language ss x (w, cs))) = replay A language w new"
proof (induction ss arbitrary: x w cs)
  case Nil
  show ?case by (simp add: ret_def)
next
  case (Cons s ss)
  let ?f = "action_of A language s"
  let ?c = "\<lparr> called = s, argument = x, language_given = language_of language s,
              outcome = fst (?f x w) \<rparr>"
  show ?case
  proof (cases "fst (?f x w)")
    case (Inl e)
    then have "spec_run A language (s # ss) x (w, cs) = (Inl e, snd (?f x w), cs @ [?c])"
      by (simp add: and_then_def invoke_eq)
    then show ?thesis by simp
  next
    case (Inr y)
    then have run: "spec_run A language (s # ss) x (w, cs)
        = spec_run A language ss y (snd (?f x w), cs @ [?c])"
      by (simp add: and_then_def invoke_eq)
    from Cons.IH [of y "snd (?f x w)" "cs @ [?c]"] obtain new where
      new: "snd (snd (spec_run A language ss y (snd (?f x w), cs @ [?c]))) = (cs @ [?c]) @ new"
        "genuine A language (snd (?f x w)) new"
        "fst (snd (spec_run A language ss y (snd (?f x w), cs @ [?c])))
           = replay A language (snd (?f x w)) new"
      by blast
    show ?thesis
    proof (intro exI [of _ "?c # new"] conjI)
      show "snd (snd (spec_run A language (s # ss) x (w, cs))) = cs @ ?c # new"
        using new(1) by (simp only: run) simp
      show "genuine A language w (?c # new)"
        using new(2) by simp
      show "fst (snd (spec_run A language (s # ss) x (w, cs))) = replay A language w (?c # new)"
        using new(3) by (simp only: run) simp
    qed
  qed
qed

lemma run_genuine:
  "genuine A language w (invoked A item options language w) \<and>
   world_after A item options language w
     = replay A language w (invoked A item options language w)"
  using spec_run_genuine [of A language "spec_plan options" item w "[]"]
  by (auto simp: invoked_def world_after_def transcribe_with_options_spec_run)

lemma log_reaches:
  assumes thr: "threaded x cs r"
    and names: "map called cs = take (length cs) plan"
    and full: "isl r \<or> map called cs = plan"
    and ok: "list_all (\<lambda>c. \<not> isl (outcome c)) (filter (\<lambda>c. called c \<in> set (take k plan)) cs)"
  shows "take k (map called cs) = take k plan"
proof (cases "min k (length plan) \<le> length cs")
  case True
  have "take k (map called cs) = take k (take (length cs) plan)" by (simp only: names)
  also have "\<dots> = take (min k (length cs)) plan" by simp
  also have "\<dots> = take k plan"
  proof (cases "k \<le> length cs")
    case True
    then show ?thesis by (simp add: min_def)
  next
    case False
    with True have "length plan \<le> length cs" by (simp add: min_def split: if_splits)
    with False show ?thesis by (simp add: min_def)
  qed
  finally show ?thesis .
next
  case False
  then have short: "length cs < k" "length cs < length plan" by simp_all
  then have "map called cs \<noteq> plan" by auto
  with full have raised: "isl r" by blast
  have ne: "cs \<noteq> []"
  proof
    assume "cs = []"
    with thr raised show False by simp
  qed
  with thr have "r = outcome (last cs)" by (rule threaded_last)
  with raised have last_raised: "isl (outcome (last cs))" by simp
  from ne have idx: "length cs - 1 < length cs" by (cases cs) simp_all
  from ne have "called (last cs) = map called cs ! (length cs - 1)"
    using idx by (simp add: last_conv_nth)
  also have "\<dots> = plan ! (length cs - 1)"
    using idx by (simp only: names) simp
  also have "\<dots> \<in> set (take k plan)"
  proof -
    from short idx have lt: "length cs - 1 < length (take k plan)" by simp
    then have "take k plan ! (length cs - 1) \<in> set (take k plan)" by (rule nth_mem)
    moreover from short idx have "take k plan ! (length cs - 1) = plan ! (length cs - 1)" by simp
    ultimately show ?thesis by simp
  qed
  finally have "last cs \<in> set (filter (\<lambda>c. called c \<in> set (take k plan)) cs)"
    using ne by simp
  with ok have "\<not> isl (outcome (last cs))" by (simp add: list_all_iff)
  with last_raised show ?thesis by contradiction
qed


lemma deep_chain:
  "transcribe_with_options A item deep language =
     and_then (invoke Transcribe (Some language) (\<lambda>i. transcribe A i language) item) (\<lambda>result.
     and_then (invoke IdentifySpeakers None (identify_speakers_action A) result) (\<lambda>result.
     and_then (invoke StripHtml None (strip_html A) result) (\<lambda>result.
     and_then (invoke BreakIntoParagraphs None (break_into_paragraphs A) result) (\<lambda>result.
     and_then (invoke BackfillTimestamps None (backfill_timestamps A) result) (\<lambda>result.
     and_then (invoke InsertSectionHeadings None (insert_section_headings_action A) result) (\<lambda>result.
     and_then (invoke ResearchParas None (research_paras_action A) result) (\<lambda>result.
     and_then (invoke AddSummaryBullets None (add_summary_bullets_action A) result) (\<lambda>result.
     and_then (invoke AddDescription None (add_description_action A) result) (\<lambda>result.
     invoke InsertFrameCaptures None (insert_frame_captures_action A) result)))))))))"
  by (simp add: transcribe_with_options_def deep_def cls_def and_then_assoc)

lemma format_chain:
  "format options \<Longrightarrow>
   transcribe_with_options A item options language =
     and_then (invoke Transcribe (Some language) (\<lambda>i. transcribe A i language) item) (\<lambda>result.
     and_then (if identify_speakers options
                 then invoke IdentifySpeakers None (identify_speakers_action A) result
               else ret result) (\<lambda>result.
     and_then (invoke StripHtml None (strip_html A) result) (\<lambda>result.
     and_then (invoke BreakIntoParagraphs None (break_into_paragraphs A) result) (\<lambda>result.
     and_then (invoke BackfillTimestamps None (backfill_timestamps A) result)
       (spec_run A language
          (filter (spec_enabled options)
             [InsertSectionHeadings, ResearchParas, AddSummaryBullets, AddDescription,
              InsertFrameCaptures]))))))"
  by (simp add: transcribe_with_options_def and_then_assoc spec_run_Nil_fun spec_run_Cons_fun
      language_of_def)

lemma no_format_chain:
  "\<not> format options \<Longrightarrow>
   transcribe_with_options A item options language =
     and_then (invoke Transcribe (Some language) (\<lambda>i. transcribe A i language) item)
       (spec_run A language
          (filter (spec_enabled options)
             [InsertSectionHeadings, ResearchParas, AddSummaryBullets, AddDescription,
              InsertFrameCaptures]))"
  by (simp add: transcribe_with_options_def and_then_assoc spec_run_Nil_fun spec_run_Cons_fun
      language_of_def)


text \<open>
  C3: the steps \<open>transcribe_with_options\<close> invokes and their order are determined by the
  flags, in the fixed order of the specification. The function is the pipeline of the
  specification: the plan of the flags (the ten steps in their fixed order, without those
  the flags disable), run in sequence until a step raises; with \<open>deep\<close> it is the chain of
  all ten actions, each applied to what the action before it returned. On the log: every
  call is a call of the action of its step in the world the earlier calls left; the steps
  called are an initial segment of the plan; the first \<open>k\<close> steps of the plan were all
  called when no call of one of them raised, so all of the plan when the run returns; the
  first call gets the input item, every later call gets what the call before it returned,
  and the result is the outcome of the last call.
\<close>

theorem transcribe_with_options_fixed_order:
  "transcribe_with_options A item options language
     = spec_run A language (spec_plan options) item \<and>
   transcribe_with_options A item deep language =
     and_then (invoke Transcribe (Some language) (\<lambda>i. transcribe A i language) item) (\<lambda>result.
     and_then (invoke IdentifySpeakers None (identify_speakers_action A) result) (\<lambda>result.
     and_then (invoke StripHtml None (strip_html A) result) (\<lambda>result.
     and_then (invoke BreakIntoParagraphs None (break_into_paragraphs A) result) (\<lambda>result.
     and_then (invoke BackfillTimestamps None (backfill_timestamps A) result) (\<lambda>result.
     and_then (invoke InsertSectionHeadings None (insert_section_headings_action A) result) (\<lambda>result.
     and_then (invoke ResearchParas None (research_paras_action A) result) (\<lambda>result.
     and_then (invoke AddSummaryBullets None (add_summary_bullets_action A) result) (\<lambda>result.
     and_then (invoke AddDescription None (add_description_action A) result) (\<lambda>result.
     invoke InsertFrameCaptures None (insert_frame_captures_action A) result))))))))) \<and>
   genuine A language w (invoked A item options language w) \<and>
   world_after A item options language w
     = replay A language w (invoked A item options language w) \<and>
   map called (invoked A item options language w)
     = take (length (invoked A item options language w)) (spec_plan options) \<and>
   (\<forall>k. list_all (\<lambda>c. \<not> isl (outcome c))
          (filter (\<lambda>c. called c \<in> set (take k (spec_plan options)))
             (invoked A item options language w)) \<longrightarrow>
        take k (map called (invoked A item options language w)) = take k (spec_plan options)) \<and>
   (\<not> isl (returned A item options language w) \<longrightarrow>
      map called (invoked A item options language w) = spec_plan options) \<and>
   (\<not> isl (returned A item deep language w) \<longrightarrow>
      map called (invoked A item deep language w)
        = [Transcribe, IdentifySpeakers, StripHtml, BreakIntoParagraphs, BackfillTimestamps,
           InsertSectionHeadings, ResearchParas, AddSummaryBullets, AddDescription,
           InsertFrameCaptures]) \<and>
   argument (hd (invoked A item options language w)) = item \<and>
   (\<forall>i. Suc i < length (invoked A item options language w) \<longrightarrow>
      outcome (invoked A item options language w ! i)
        = Inr (argument (invoked A item options language w ! Suc i))) \<and>
   returned A item options language w = outcome (last (invoked A item options language w))"
proof (intro conjI allI impI)
  note log = run_log [of item A options language w]
  from log have thr:
    "threaded item (invoked A item options language w) (returned A item options language w)"
    by blast
  from first_call [of A item options language w] obtain rest where
    rest: "invoked A item options language w =
      \<lparr> called = Transcribe, argument = item, language_given = Some language,
        outcome = fst (transcribe A item language w) \<rparr> # rest" by blast
  show "transcribe_with_options A item options language
     = spec_run A language (spec_plan options) item"
    by (rule transcribe_with_options_spec_run)
  show "transcribe_with_options A item deep language =
     and_then (invoke Transcribe (Some language) (\<lambda>i. transcribe A i language) item) (\<lambda>result.
     and_then (invoke IdentifySpeakers None (identify_speakers_action A) result) (\<lambda>result.
     and_then (invoke StripHtml None (strip_html A) result) (\<lambda>result.
     and_then (invoke BreakIntoParagraphs None (break_into_paragraphs A) result) (\<lambda>result.
     and_then (invoke BackfillTimestamps None (backfill_timestamps A) result) (\<lambda>result.
     and_then (invoke InsertSectionHeadings None (insert_section_headings_action A) result) (\<lambda>result.
     and_then (invoke ResearchParas None (research_paras_action A) result) (\<lambda>result.
     and_then (invoke AddSummaryBullets None (add_summary_bullets_action A) result) (\<lambda>result.
     and_then (invoke AddDescription None (add_description_action A) result) (\<lambda>result.
     invoke InsertFrameCaptures None (insert_frame_captures_action A) result)))))))))"
    by (rule deep_chain)
  show "genuine A language w (invoked A item options language w)"
    using run_genuine [of A language w item options] by blast
  show "world_after A item options language w
     = replay A language w (invoked A item options language w)"
    using run_genuine [of A language w item options] by blast
  show "map called (invoked A item options language w)
     = take (length (invoked A item options language w)) (spec_plan options)"
    using log by blast
  show "take k (map called (invoked A item options language w)) = take k (spec_plan options)"
    if "list_all (\<lambda>c. \<not> isl (outcome c))
          (filter (\<lambda>c. called c \<in> set (take k (spec_plan options)))
             (invoked A item options language w))" for k
  proof (rule log_reaches [OF thr _ _ that])
    show "map called (invoked A item options language w)
      = take (length (invoked A item options language w)) (spec_plan options)"
      using log by blast
    show "isl (returned A item options language w) \<or>
      map called (invoked A item options language w) = spec_plan options"
      using log by blast
  qed
  show "map called (invoked A item options language w) = spec_plan options"
    if "\<not> isl (returned A item options language w)"
    using log that by blast
  show "map called (invoked A item deep language w)
        = [Transcribe, IdentifySpeakers, StripHtml, BreakIntoParagraphs, BackfillTimestamps,
           InsertSectionHeadings, ResearchParas, AddSummaryBullets, AddDescription,
           InsertFrameCaptures]"
    if "\<not> isl (returned A item deep language w)"
  proof -
    from run_log [of item A deep language w] that
    have "map called (invoked A item deep language w) = spec_plan deep" by blast
    then show ?thesis by (simp only: spec_plan_deep spec_step_order_def)
  qed
  show "argument (hd (invoked A item options language w)) = item"
    by (simp add: rest)
  show "outcome (invoked A item options language w ! i)
        = Inr (argument (invoked A item options language w ! Suc i))"
    if "Suc i < length (invoked A item options language w)" for i
    using thr that by (rule threaded_chain)
  show "returned A item options language w = outcome (last (invoked A item options language w))"
    using thr by (rule threaded_last) (simp add: rest)
qed

text \<open>
  A run of \<open>deep\<close> in which no step raises, and one in which the last step raises after
  the nine before it have run.
\<close>

theorem transcribe_with_options_fixed_order_witness:
  "\<not> isl (returned (test_actions None) 0 deep (str ''en'') 0) \<and>
   map called (invoked (test_actions None) 0 deep (str ''en'') 0)
     = [Transcribe, IdentifySpeakers, StripHtml, BreakIntoParagraphs, BackfillTimestamps,
        InsertSectionHeadings, ResearchParas, AddSummaryBullets, AddDescription,
        InsertFrameCaptures] \<and>
   Suc 3 < length (invoked (test_actions None) 0 deep (str ''en'') 0) \<and>
   outcome (invoked (test_actions None) 0 deep (str ''en'') 0 ! 3)
     = Inr (argument (invoked (test_actions None) 0 deep (str ''en'') 0 ! Suc 3)) \<and>
   list_all (\<lambda>c. \<not> isl (outcome c))
     (filter (\<lambda>c. called c \<in> set (take 9 (spec_plan deep)))
        (invoked (test_actions (Some InsertFrameCaptures)) 0 deep (str ''en'') 0)) \<and>
   take 9 (map called (invoked (test_actions (Some InsertFrameCaptures)) 0 deep (str ''en'') 0))
     = take 9 (spec_plan deep) \<and>
   returned (test_actions None) 0 deep (str ''en'') 0 = Inr 452 \<and>
   world_after (test_actions None) 0 deep (str ''en'') 0 = 10"
proof -
  have ok: "\<not> isl (returned (test_actions None) 0 deep (str ''en'') 0)"
    by (simp add: eval_run)
  have len: "Suc 3 < length (invoked (test_actions None) 0 deep (str ''en'') 0)"
    by (simp add: eval_run)
  have upto: "list_all (\<lambda>c. \<not> isl (outcome c))
     (filter (\<lambda>c. called c \<in> set (take 9 (spec_plan deep)))
        (invoked (test_actions (Some InsertFrameCaptures)) 0 deep (str ''en'') 0))"
    by (simp add: eval_run spec_plan_def spec_step_order_def)
  have val: "returned (test_actions None) 0 deep (str ''en'') 0 = Inr 452"
    "world_after (test_actions None) 0 deep (str ''en'') 0 = 10"
    by (simp_all add: eval_run)
  from transcribe_with_options_fixed_order [of "test_actions None" 0 deep "str ''en''" 0] ok len
    transcribe_with_options_fixed_order [of "test_actions (Some InsertFrameCaptures)" 0 deep "str ''en''" 0] upto val
  show ?thesis by blast
qed





lemma formatting_steps_of_plan:
  "filter (\<lambda>s. s \<in> {IdentifySpeakers, StripHtml, BreakIntoParagraphs, BackfillTimestamps})
     (spec_plan options)
   = (if format options
        then (if identify_speakers options then [IdentifySpeakers] else [])
             @ [StripHtml, BreakIntoParagraphs, BackfillTimestamps]
      else [])"
  by (simp add: spec_plan_def spec_step_order_def)

lemma spec_plan_format:
  "format options \<Longrightarrow>
   spec_plan options =
     (Transcribe # (if identify_speakers options then [IdentifySpeakers] else [])
        @ [StripHtml, BreakIntoParagraphs, BackfillTimestamps])
     @ filter (spec_enabled options)
         [InsertSectionHeadings, ResearchParas, AddSummaryBullets, AddDescription,
          InsertFrameCaptures]"
  by (simp add: spec_plan_def spec_step_order_def)

lemma filter_take_block:
  assumes names: "names = take n (pre @ post)"
    and first: "take (length pre) names = pre"
    and post: "\<forall>s\<in>set post. \<not> P s"
  shows "filter P names = filter P pre"
proof -
  have "length pre \<le> n"
  proof (rule ccontr)
    assume "\<not> length pre \<le> n"
    then have "length names < length pre" by (simp add: names)
    moreover from first have "length (take (length pre) names) = length pre" by simp
    ultimately show False by simp
  qed
  then have split: "names = pre @ take (n - length pre) post"
    by (simp add: names)
  have "set (take (n - length pre) post) \<subseteq> set post" by (rule set_take_subset)
  with post have "filter P (take (n - length pre) post) = []"
    by (auto simp: filter_empty_conv)
  then show ?thesis by (subst split) simp
qed

lemma formatting_block_complete:
  assumes fmt: "format options"
    and ok: "list_all (\<lambda>c. \<not> isl (outcome c))
       (filter (\<lambda>c. called c \<in> {Transcribe, IdentifySpeakers, StripHtml, BreakIntoParagraphs,
                                   BackfillTimestamps})
          (invoked A item options language w))"
  shows "take (Suc (length ((if identify_speakers options then [IdentifySpeakers] else [])
                 @ [StripHtml, BreakIntoParagraphs, BackfillTimestamps])))
           (map called (invoked A item options language w))
         = Transcribe # (if identify_speakers options then [IdentifySpeakers] else [])
             @ [StripHtml, BreakIntoParagraphs, BackfillTimestamps] \<and>
         filter (\<lambda>s. s \<in> {IdentifySpeakers, StripHtml, BreakIntoParagraphs, BackfillTimestamps})
           (map called (invoked A item options language w))
         = (if identify_speakers options then [IdentifySpeakers] else [])
           @ [StripHtml, BreakIntoParagraphs, BackfillTimestamps]"
proof -
  define I where "I = invoked A item options language w"
  define F where "F = (if identify_speakers options then [IdentifySpeakers] else [])
           @ [StripHtml, BreakIntoParagraphs, BackfillTimestamps]"
  define An where "An = filter (spec_enabled options)
         [InsertSectionHeadings, ResearchParas, AddSummaryBullets, AddDescription,
          InsertFrameCaptures]"
  define fmt_step where "fmt_step =
    (\<lambda>s. s \<in> {IdentifySpeakers, StripHtml, BreakIntoParagraphs, BackfillTimestamps})"
  note log = run_log [of item A options language w, folded I_def]
  have plan: "spec_plan options = (Transcribe # F) @ An"
    unfolding F_def An_def using fmt by (rule spec_plan_format)
  have tk: "take (Suc (length F)) (spec_plan options) = Transcribe # F"
    by (simp add: plan)
  have setF: "set F \<subseteq> {IdentifySpeakers, StripHtml, BreakIntoParagraphs, BackfillTimestamps}"
    by (auto simp: F_def)
  have ok': "list_all (\<lambda>c. \<not> isl (outcome c))
      (filter (\<lambda>c. called c \<in> set (take (Suc (length F)) (spec_plan options))) I)"
    using ok setF unfolding tk I_def list_all_iff by auto
  have thr: "threaded item I (returned A item options language w)" using log by blast
  have names: "map called I = take (length I) ((Transcribe # F) @ An)"
    using log by (simp only: plan)
  have "take (Suc (length F)) (map called I) = take (Suc (length F)) (spec_plan options)"
  proof (rule log_reaches [OF thr _ _ ok'])
    show "map called I = take (length I) (spec_plan options)" using log by blast
    show "isl (returned A item options language w) \<or> map called I = spec_plan options"
      using log by blast
  qed
  then have first: "take (length (Transcribe # F)) (map called I) = Transcribe # F"
    by (simp only: tk length_Cons)
  have post: "\<forall>s\<in>set An. \<not> fmt_step s"
    by (auto simp: An_def fmt_step_def)
  have "filter fmt_step (map called I) = filter fmt_step (Transcribe # F)"
    using names first post by (rule filter_take_block)
  also have "\<dots> = F"
    by (simp add: fmt_step_def F_def)
  finally have all: "filter fmt_step (map called I) = F" .
  from first all show ?thesis
    unfolding I_def F_def fmt_step_def by simp
qed


text \<open>
  C2: speaker identification and the three formatting steps (HTML stripping, paragraph
  breaking, timestamp backfill) run only when \<open>format\<close> is true. When \<open>format\<close> is false
  none of the four is invoked, whatever \<open>identify_speakers\<close> is: after transcription the
  function goes on with the annotation steps. When \<open>format\<close> is true, the function is
  transcription, then speaker identification if \<open>identify_speakers\<close> is true, then the
  three steps in their order under no other condition, then the annotation steps. On the
  log: the calls of the four steps are an initial segment of that sequence; they are all
  of it, directly after transcription, whenever neither transcription nor one of them
  raised, also in a run where a later step raises; and every call is a call of the action
  of its step, on the item the call before it returned.
\<close>

theorem format_gates_formatting_steps:
  "(\<not> format options \<longrightarrow>
      filter (\<lambda>s. s \<in> {IdentifySpeakers, StripHtml, BreakIntoParagraphs, BackfillTimestamps})
        (map called (invoked A item options language w)) = [] \<and>
      transcribe_with_options A item options language =
        and_then (invoke Transcribe (Some language) (\<lambda>i. transcribe A i language) item)
          (spec_run A language
             (filter (spec_enabled options)
                [InsertSectionHeadings, ResearchParas, AddSummaryBullets, AddDescription,
                 InsertFrameCaptures]))) \<and>
   (format options \<longrightarrow>
      prefix
        (filter (\<lambda>s. s \<in> {IdentifySpeakers, StripHtml, BreakIntoParagraphs, BackfillTimestamps})
           (map called (invoked A item options language w)))
        ((if identify_speakers options then [IdentifySpeakers] else [])
         @ [StripHtml, BreakIntoParagraphs, BackfillTimestamps]) \<and>
      transcribe_with_options A item options language =
        and_then (invoke Transcribe (Some language) (\<lambda>i. transcribe A i language) item) (\<lambda>result.
        and_then (if identify_speakers options
                    then invoke IdentifySpeakers None (identify_speakers_action A) result
                  else ret result) (\<lambda>result.
        and_then (invoke StripHtml None (strip_html A) result) (\<lambda>result.
        and_then (invoke BreakIntoParagraphs None (break_into_paragraphs A) result) (\<lambda>result.
        and_then (invoke BackfillTimestamps None (backfill_timestamps A) result)
          (spec_run A language
             (filter (spec_enabled options)
                [InsertSectionHeadings, ResearchParas, AddSummaryBullets, AddDescription,
                 InsertFrameCaptures]))))))) \<and>
   (format options \<and>
    list_all (\<lambda>c. \<not> isl (outcome c))
      (filter (\<lambda>c. called c \<in> {Transcribe, IdentifySpeakers, StripHtml, BreakIntoParagraphs,
                                  BackfillTimestamps})
         (invoked A item options language w)) \<longrightarrow>
      take (Suc (length ((if identify_speakers options then [IdentifySpeakers] else [])
                 @ [StripHtml, BreakIntoParagraphs, BackfillTimestamps])))
        (map called (invoked A item options language w))
      = Transcribe # (if identify_speakers options then [IdentifySpeakers] else [])
          @ [StripHtml, BreakIntoParagraphs, BackfillTimestamps] \<and>
      filter (\<lambda>s. s \<in> {IdentifySpeakers, StripHtml, BreakIntoParagraphs, BackfillTimestamps})
        (map called (invoked A item options language w))
      = (if identify_speakers options then [IdentifySpeakers] else [])
        @ [StripHtml, BreakIntoParagraphs, BackfillTimestamps]) \<and>
   (format options \<and> \<not> isl (returned A item options language w) \<longrightarrow>
      filter (\<lambda>s. s \<in> {IdentifySpeakers, StripHtml, BreakIntoParagraphs, BackfillTimestamps})
        (map called (invoked A item options language w))
      = (if identify_speakers options then [IdentifySpeakers] else [])
        @ [StripHtml, BreakIntoParagraphs, BackfillTimestamps]) \<and>
   genuine A language w (invoked A item options language w) \<and>
   threaded item (invoked A item options language w) (returned A item options language w)"
proof -
  define I where "I = invoked A item options language w"
  define fmt_step where "fmt_step =
    (\<lambda>s. s \<in> {IdentifySpeakers, StripHtml, BreakIntoParagraphs, BackfillTimestamps})"
  define F where "F = (if identify_speakers options then [IdentifySpeakers] else [])
         @ [StripHtml, BreakIntoParagraphs, BackfillTimestamps]"
  note log = run_log [of item A options language w, folded I_def]
  have "prefix (take (length I) (spec_plan options)) (spec_plan options)"
    by (rule take_is_prefix)
  then have "prefix (filter fmt_step (take (length I) (spec_plan options)))
      (filter fmt_step (spec_plan options))"
    by (rule filter_mono_prefix)
  with log have pre: "prefix (filter fmt_step (map called I)) (filter fmt_step (spec_plan options))"
    by simp
  have off: "filter fmt_step (map called I) = []" if "\<not> format options"
    using pre that unfolding fmt_step_def by (simp only: formatting_steps_of_plan) simp
  have on: "prefix (filter fmt_step (map called I)) F" if "format options"
    using pre that unfolding fmt_step_def F_def by (simp only: formatting_steps_of_plan if_True)
  have full: "filter fmt_step (map called I) = F"
    if "format options" "\<not> isl (returned A item options language w)"
  proof -
    from log that(2) have "map called I = spec_plan options" by blast
    with that(1) show ?thesis
      unfolding fmt_step_def F_def by (simp only: formatting_steps_of_plan if_True)
  qed
  have block: "take (Suc (length F)) (map called I) = Transcribe # F \<and>
      filter fmt_step (map called I) = F"
    if "format options"
      "list_all (\<lambda>c. \<not> isl (outcome c))
        (filter (\<lambda>c. called c \<in> {Transcribe, IdentifySpeakers, StripHtml, BreakIntoParagraphs,
                                    BackfillTimestamps}) I)"
    using formatting_block_complete [OF that [unfolded I_def]]
    unfolding I_def F_def fmt_step_def .
  have gen: "genuine A language w I"
    using run_genuine [of A language w item options] unfolding I_def by blast
  have thr: "threaded item I (returned A item options language w)" using log by blast
  from off on full block gen thr no_format_chain [of options A item language]
    format_chain [of options A item language]
  show ?thesis
    unfolding I_def F_def fmt_step_def by blast
qed


text \<open>
  A run with \<open>identify_speakers\<close> true and \<open>format\<close> false, a run of \<open>formatted\<close>, and a
  run of \<open>deep\<close> in which the description step raises after the formatting steps.
\<close>

theorem format_gates_formatting_steps_witness:
  "\<not> format (cls \<lparr> identify_speakers := True \<rparr>) \<and>
   identify_speakers (cls \<lparr> identify_speakers := True \<rparr>) \<and>
   filter (\<lambda>s. s \<in> {IdentifySpeakers, StripHtml, BreakIntoParagraphs, BackfillTimestamps})
     (map called (invoked (test_actions None) 0 (cls \<lparr> identify_speakers := True \<rparr>)
        (str ''en'') 0)) = [] \<and>
   format formatted \<and> \<not> isl (returned (test_actions None) 0 formatted (str ''en'') 0) \<and>
   filter (\<lambda>s. s \<in> {IdentifySpeakers, StripHtml, BreakIntoParagraphs, BackfillTimestamps})
     (map called (invoked (test_actions None) 0 formatted (str ''en'') 0))
     = [IdentifySpeakers, StripHtml, BreakIntoParagraphs, BackfillTimestamps] \<and>
   format deep \<and> isl (returned (test_actions (Some AddDescription)) 0 deep (str ''en'') 0) \<and>
   list_all (\<lambda>c. \<not> isl (outcome c))
     (filter (\<lambda>c. called c \<in> {Transcribe, IdentifySpeakers, StripHtml, BreakIntoParagraphs,
                                 BackfillTimestamps})
        (invoked (test_actions (Some AddDescription)) 0 deep (str ''en'') 0)) \<and>
   filter (\<lambda>s. s \<in> {IdentifySpeakers, StripHtml, BreakIntoParagraphs, BackfillTimestamps})
     (map called (invoked (test_actions (Some AddDescription)) 0 deep (str ''en'') 0))
     = [IdentifySpeakers, StripHtml, BreakIntoParagraphs, BackfillTimestamps]"
proof -
  have h1: "\<not> format (cls \<lparr> identify_speakers := True \<rparr>)"
    "identify_speakers (cls \<lparr> identify_speakers := True \<rparr>)"
    by (simp_all add: cls_def)
  have h2: "format formatted" "identify_speakers formatted"
    "\<not> isl (returned (test_actions None) 0 formatted (str ''en'') 0)"
    by (simp_all add: eval_run)
  have h3: "format deep" "identify_speakers deep"
    "isl (returned (test_actions (Some AddDescription)) 0 deep (str ''en'') 0)"
    "list_all (\<lambda>c. \<not> isl (outcome c))
     (filter (\<lambda>c. called c \<in> {Transcribe, IdentifySpeakers, StripHtml, BreakIntoParagraphs,
                                 BackfillTimestamps})
        (invoked (test_actions (Some AddDescription)) 0 deep (str ''en'') 0))"
    by (simp_all add: eval_run)
  from format_gates_formatting_steps
         [of "cls \<lparr> identify_speakers := True \<rparr>" "test_actions None" 0 "str ''en''" 0] h1
  have off: "filter (\<lambda>s. s \<in> {IdentifySpeakers, StripHtml, BreakIntoParagraphs, BackfillTimestamps})
     (map called (invoked (test_actions None) 0 (cls \<lparr> identify_speakers := True \<rparr>)
        (str ''en'') 0)) = []"
    by blast
  from format_gates_formatting_steps [of formatted "test_actions None" 0 "str ''en''" 0] h2
  have on: "filter (\<lambda>s. s \<in> {IdentifySpeakers, StripHtml, BreakIntoParagraphs, BackfillTimestamps})
     (map called (invoked (test_actions None) 0 formatted (str ''en'') 0))
     = [IdentifySpeakers, StripHtml, BreakIntoParagraphs, BackfillTimestamps]"
    by simp
  from format_gates_formatting_steps [of deep "test_actions (Some AddDescription)" 0 "str ''en''" 0] h3
  have late: "filter (\<lambda>s. s \<in> {IdentifySpeakers, StripHtml, BreakIntoParagraphs, BackfillTimestamps})
     (map called (invoked (test_actions (Some AddDescription)) 0 deep (str ''en'') 0))
     = [IdentifySpeakers, StripHtml, BreakIntoParagraphs, BackfillTimestamps]"
    by simp
  from h1 h2 h3 off on late show ?thesis by blast
qed

end
